theory Spec2Isabelle
  imports Complex_Main "HOL-Library.Multiset"
begin

section \<open>The acquisition engine of \<open>src/bci/brain_interface.py\<close>\<close>

text \<open>
  The class \<open>BrainInterface\<close> is embedded as a record of its attributes and one function
  per method, each taking the object and returning the updated object.

  Conventions of the embedding:
  \<^item> numpy's float64 values (buffers, timestamps, thresholds, filter state) are real
    numbers and float64 arithmetic is exact real arithmetic; rounding, infinities and
    NaN are outside the model;
  \<^item> the source only ever touches row 0 of \<open>raw_buffer\<close> and \<open>filtered_buffer\<close>; each
    buffer is that row, a list of \<open>BUFFER_SIZE\<close> numbers;
  \<^item> every reading of the clock (\<open>time.time()\<close>) and every result of the serial
    transport is an argument of the function that makes the call;
  \<^item> the filter coefficients designed by \<open>scipy.signal.butter\<close> and
    \<open>scipy.signal.iirnotch\<close>, and the vectors returned by \<open>scipy.signal.lfilter_zi\<close>
    for them, are parameters (fields of the record): scipy is not part of the repository;
  \<^item> printing, plotting, file output and the optional event callback do not change the
    attributes and are left out;
  \<^item> the streaming thread and its callers are interleaved sequentially.
\<close>

subsection \<open>Constants\<close>

definition SAMPLE_RATE :: nat where
  "SAMPLE_RATE = 250"

definition BUFFER_SIZE :: nat where
  "BUFFER_SIZE = 250 * 5"

subsection \<open>The numpy reductions used by the detector and the calibration\<close>

definition np_mean :: "real list \<Rightarrow> real" where
  "np_mean xs = sum_list xs / real (length xs)"

definition np_std :: "real list \<Rightarrow> real" where
  \<comment> \<open>\<open>np.std\<close> with its default \<open>ddof=0\<close>: the population standard deviation.\<close>
  "np_std xs = sqrt (np_mean (map (\<lambda>x. \<bar>x - np_mean xs\<bar>\<^sup>2) xs))"

fun np_max :: "real list \<Rightarrow> real" where
  \<comment> \<open>\<open>np.max\<close> raises on an empty array; the detector reaches it only with a window of
      positive standard deviation, which is not empty.\<close>
  "np_max [] = 0"
| "np_max (x # xs) = foldl max x xs"

subsection \<open>One step of \<open>scipy.signal.lfilter\<close>\<close>

text \<open>
  The source calls \<open>lfilter(b, a, [x], zi=z)\<close> on a signal of one sample. scipy documents
  the filter as a direct form II transposed structure; with \<open>a[0] = 1\<close> and \<open>b\<close>, \<open>a\<close> of
  equal length, as \<open>butter\<close> and \<open>iirnotch\<close> return them, one sample gives
  \<open>y = b[0]*x + z[0]\<close>, then \<open>z'[i] = b[i+1]*x + z[i+1] - a[i+1]*y\<close>, the last delay
  having no successor. \<open>delay_line\<close> walks the tails of \<open>b\<close>, \<open>a\<close> and \<open>z\<close>.
\<close>

fun delay_line :: "real list \<Rightarrow> real list \<Rightarrow> real list \<Rightarrow> real \<Rightarrow> real \<Rightarrow> real list" where
  "delay_line (bk # bs) (ak # as) zs x y =
     (bk * x + (case zs of [] \<Rightarrow> 0 | z # _ \<Rightarrow> z) - ak * y) # delay_line bs as (tl zs) x y"
| "delay_line _ _ _ _ _ = []"

definition lfilter :: "real list \<Rightarrow> real list \<Rightarrow> real \<Rightarrow> real list \<Rightarrow> real \<times> real list" where
  "lfilter b a x zi =
     (let y = (case b of [] \<Rightarrow> 0 | b0 # _ \<Rightarrow> b0) * x + (case zi of [] \<Rightarrow> 0 | z0 # _ \<Rightarrow> z0)
      in (y, delay_line (tl b) (tl a) (tl zi) x y))"

subsection \<open>The object\<close>

record brain_interface =
  raw_buffer :: "real list"
  filtered_buffer :: "real list"
  timestamps :: "real list"
  event_timestamps :: "real list"
  running :: bool
  streaming :: bool
  filter_state :: "real list option"
  notch_state :: "real list option"
  current_sample_idx :: nat
  start_time :: "real option"
  event_count :: nat
  last_event_time :: real
  cooldown_period :: real
  detection_threshold :: real
  window_size :: nat
  bp_filter_b :: "real list"
  bp_filter_a :: "real list"
  bp_zi :: "real list"
  notch_b :: "real list"
  notch_a :: "real list"
  notch_zi :: "real list"

text \<open>
  \<open>notch_state\<close> is not assigned in \<open>__init__\<close>: \<open>None\<close> stands for the missing attribute
  that \<open>hasattr(self, 'notch_state')\<close> tests. \<open>bp_zi\<close> and \<open>notch_zi\<close> are the values of
  \<open>signal.lfilter_zi(self.bp_filter_b, self.bp_filter_a)\<close> and
  \<open>signal.lfilter_zi(self.notch_b, self.notch_a)\<close>.
\<close>

definition init :: "real list \<Rightarrow> real list \<Rightarrow> real list \<Rightarrow> real list \<Rightarrow> real list \<Rightarrow> real list
    \<Rightarrow> brain_interface" where
  \<comment> \<open>\<open>__init__\<close> followed by \<open>_setup_filters\<close>, whose results are the six arguments.\<close>
  "init bp_b bp_a bp_z n_b n_a n_z =
     \<lparr> raw_buffer = replicate BUFFER_SIZE 0,
       filtered_buffer = replicate BUFFER_SIZE 0,
       timestamps = replicate BUFFER_SIZE 0,
       event_timestamps = [],
       running = False,
       streaming = False,
       filter_state = None,
       notch_state = None,
       current_sample_idx = 0,
       start_time = None,
       event_count = 0,
       last_event_time = 0,
       cooldown_period = 1 / 2,
       detection_threshold = 50,
       window_size = 50,
       bp_filter_b = bp_b,
       bp_filter_a = bp_a,
       bp_zi = bp_z,
       notch_b = n_b,
       notch_a = n_a,
       notch_zi = n_z \<rparr>"

definition buffers_ok :: "brain_interface \<Rightarrow> bool" where
  \<comment> \<open>The three arrays are allocated with \<open>BUFFER_SIZE\<close> slots and never resized.\<close>
  "buffers_ok s \<longleftrightarrow>
     length (raw_buffer s) = BUFFER_SIZE \<and>
     length (filtered_buffer s) = BUFFER_SIZE \<and>
     length (timestamps s) = BUFFER_SIZE"

subsection \<open>Lifecycle: \<open>connect\<close>, \<open>start_stream\<close>, \<open>stop_stream\<close>\<close>

definition connect :: "brain_interface \<Rightarrow> bool \<Rightarrow> bool \<times> brain_interface" where
  \<comment> \<open>\<open>opened\<close> tells whether \<open>serial.Serial(...)\<close> returned or raised.\<close>
  "connect s opened = (if opened then (True, s\<lparr>running := True\<rparr>) else (False, s))"

definition start_stream :: "brain_interface \<Rightarrow> bool \<Rightarrow> real \<Rightarrow> bool \<times> brain_interface" where
  \<comment> \<open>\<open>opened\<close> is the outcome of the connection attempt, \<open>now\<close> the clock.\<close>
  "start_stream s opened now =
     (let (ok, s1) = (if \<not> running s then connect s opened else (True, s))
      in if \<not> ok then (False, s1)
         else (True, s1\<lparr> streaming := True,
                         start_time := Some now,
                         current_sample_idx := 0,
                         event_count := 0,
                         event_timestamps := [] \<rparr>))"

definition stop_stream :: "brain_interface \<Rightarrow> brain_interface" where
  "stop_stream s = s\<lparr>streaming := False\<rparr>"

definition disconnect :: "brain_interface \<Rightarrow> brain_interface" where
  \<comment> \<open>The port is open exactly while \<open>running\<close> holds.\<close>
  "disconnect s = (if running s then (stop_stream s)\<lparr>running := False\<rparr> else s)"

subsection \<open>The detector: \<open>_detect_neural_event\<close>\<close>

definition window_indices :: "brain_interface \<Rightarrow> nat \<Rightarrow> nat list" where
  \<comment> \<open>Python's \<open>%\<close> on a negative left operand is the non-negative remainder, as
      \<open>mod\<close> on \<open>int\<close>.\<close>
  "window_indices s current_idx =
     map (\<lambda>i. nat ((int current_idx - int i) mod int BUFFER_SIZE)) [0..<window_size s]"

definition window_data :: "brain_interface \<Rightarrow> nat \<Rightarrow> real list" where
  "window_data s current_idx = map (\<lambda>j. filtered_buffer s ! j) (window_indices s current_idx)"

definition max_z :: "real list \<Rightarrow> real" where
  "max_z w = np_max (map (\<lambda>z. \<bar>z\<bar>) (map (\<lambda>x. (x - np_mean w) / np_std w) w))"

definition record_event :: "brain_interface \<Rightarrow> real \<Rightarrow> brain_interface" where
  \<comment> \<open>The three assignments of the firing branch.\<close>
  "record_event s current_time =
     s\<lparr> event_count := event_count s + 1,
        event_timestamps := event_timestamps s @ [current_time],
        last_event_time := current_time \<rparr>"

definition detect_neural_event :: "brain_interface \<Rightarrow> nat \<Rightarrow> real \<Rightarrow> brain_interface" where
  "detect_neural_event s current_idx current_time =
     (let w = window_data s current_idx
      in if np_std w > 0 then
           (if max_z w > detection_threshold s \<and>
               current_time - last_event_time s > cooldown_period s
            then record_event s current_time
            else s)
         else s)"

definition fires :: "brain_interface \<Rightarrow> nat \<Rightarrow> real \<Rightarrow> bool" where
  \<comment> \<open>The two nested conditions of \<open>_detect_neural_event\<close> taken together.\<close>
  "fires s i t \<longleftrightarrow>
     0 < np_std (window_data s i) \<and>
     detection_threshold s < max_z (window_data s i) \<and>
     cooldown_period s < t - last_event_time s"

subsection \<open>The acquisition loop: \<open>_stream_data\<close>\<close>

datatype line = UnicodeDecodeError | ValueError | Parsed int

text \<open>
  A \<open>line\<close> is the outcome of \<open>int(self.serial.readline().decode('utf-8').strip())\<close>: the
  bytes do not decode, the text is not an integer literal, or the integer read. A
  \<open>tick\<close> is one pass of the loop with a line waiting: the line, the clock read for the
  timestamp and the clock read by the detector.
\<close>

type_synonym tick = "line \<times> real \<times> real"

fun parsed :: "tick \<Rightarrow> bool" where
  "parsed (Parsed _, _, _) = True"
| "parsed _ = False"

definition decode_sample :: "int \<Rightarrow> int" where
  "decode_sample sample = (if sample > 0x800000 then sample - 0x1000000 else sample)"

definition bandpass :: "brain_interface \<Rightarrow> real \<Rightarrow> real \<times> real list" where
  "bandpass s sample =
     (case filter_state s of
        None \<Rightarrow> lfilter (bp_filter_b s) (bp_filter_a s) sample (map (\<lambda>z. z * sample) (bp_zi s))
      | Some st \<Rightarrow> lfilter (bp_filter_b s) (bp_filter_a s) sample st)"

definition notch :: "brain_interface \<Rightarrow> real \<Rightarrow> real \<times> real list" where
  "notch s filtered_sample =
     (case notch_state s of
        Some _ \<Rightarrow> lfilter (notch_b s) (notch_a s) filtered_sample
                    (map (\<lambda>z. z * filtered_sample) (notch_zi s))
      | None \<Rightarrow> (filtered_sample, map (\<lambda>z. z * filtered_sample) (notch_zi s)))"

definition process_sample :: "brain_interface \<Rightarrow> int \<Rightarrow> real \<Rightarrow> real \<Rightarrow> brain_interface" where
  \<comment> \<open>The body of the \<open>try\<close> block after \<open>int(line)\<close> has returned \<open>v\<close>.\<close>
  "process_sample s v t_sample t_detect =
     (let sample = decode_sample v;
          buffer_idx = current_sample_idx s mod BUFFER_SIZE;
          s1 = s\<lparr> raw_buffer := (raw_buffer s)[buffer_idx := of_int sample],
                  timestamps := (timestamps s)[buffer_idx := t_sample] \<rparr>;
          (bp_out, bp_state) = bandpass s1 (of_int sample);
          s2 = s1\<lparr> filter_state := Some bp_state \<rparr>;
          (filtered_sample, n_state) = notch s2 bp_out;
          s3 = s2\<lparr> notch_state := Some n_state \<rparr>;
          s4 = s3\<lparr> filtered_buffer := (filtered_buffer s3)[buffer_idx := filtered_sample] \<rparr>;
          s5 = (if current_sample_idx s4 \<ge> window_size s4
                then detect_neural_event s4 buffer_idx t_detect else s4)
      in s5\<lparr> current_sample_idx := current_sample_idx s5 + 1 \<rparr>)"

fun process_line :: "brain_interface \<Rightarrow> tick \<Rightarrow> brain_interface" where
  \<comment> \<open>One pass of the loop body: the \<open>except\<close> clause only prints.\<close>
  "process_line s (UnicodeDecodeError, _, _) = s"
| "process_line s (ValueError, _, _) = s"
| "process_line s (Parsed v, t_sample, t_detect) = process_sample s v t_sample t_detect"

fun stream_data :: "brain_interface \<Rightarrow> tick list \<Rightarrow> brain_interface" where
  \<comment> \<open>\<open>while self.streaming ...\<close> over the lines that arrive.\<close>
  "stream_data s [] = s"
| "stream_data s (x # xs) = (if streaming s then stream_data (process_line s x) xs else s)"

subsection \<open>The samples a stream stores\<close>

text \<open>
  \<open>filtered_value s v\<close> is the number the loop body writes to \<open>filtered_buffer\<close> for
  the parsed value \<open>v\<close>: the bandpass output passed through the notch stage.
  \<open>ingested s ticks\<close> lists, in arrival order, the (raw, filtered, timestamp) triple of
  every sample the loop stores while it runs over \<open>ticks\<close>; the position of a triple in
  the list is the sample's sequence number within the stream.
\<close>

definition filtered_value :: "brain_interface \<Rightarrow> int \<Rightarrow> real" where
  "filtered_value s v = fst (notch s (fst (bandpass s (of_int (decode_sample v)))))"

fun new_sample :: "brain_interface \<Rightarrow> tick \<Rightarrow> (real \<times> real \<times> real) list" where
  "new_sample s (Parsed v, t_sample, _) =
     [(of_int (decode_sample v), filtered_value s v, t_sample)]"
| "new_sample s _ = []"

fun ingested :: "brain_interface \<Rightarrow> tick list \<Rightarrow> (real \<times> real \<times> real) list" where
  "ingested s [] = []"
| "ingested s (x # xs) =
     (if streaming s then new_sample s x @ ingested (process_line s x) xs else [])"

subsection \<open>What a buffer slot holds\<close>

definition slot :: "brain_interface \<Rightarrow> nat \<Rightarrow> real \<times> real \<times> real" where
  \<comment> \<open>The (raw, filtered, timestamp) triple at index \<open>j\<close> of the three arrays.\<close>
  "slot s j = (raw_buffer s ! j, filtered_buffer s ! j, timestamps s ! j)"

subsection \<open>Calibration: \<open>calibrate\<close>\<close>

record calibration_report =
  baseline_mean :: real
  baseline_std :: real

definition calibration_data :: "brain_interface \<Rightarrow> nat \<Rightarrow> nat \<Rightarrow> real list" where
  "calibration_data s cal_start_idx cal_end_idx =
     (let cal_samples = int cal_end_idx - int cal_start_idx
      in if cal_samples > int BUFFER_SIZE then filtered_buffer s
         else map (\<lambda>i. filtered_buffer s ! (i mod BUFFER_SIZE)) [cal_start_idx..<cal_end_idx])"

definition calibrate ::
    "brain_interface \<Rightarrow> bool \<Rightarrow> real \<Rightarrow> tick list \<Rightarrow> brain_interface \<times> calibration_report option" where
  \<comment> \<open>\<open>arrived\<close> are the lines the streaming thread reads while \<open>calibrate\<close> waits for
      \<open>duration\<close> seconds. The report holds the two statistics the success branch
      prints; \<open>None\<close> is the branch that prints "Not enough data for calibration."\<close>
  "calibrate s opened now arrived =
     (let was_streaming = streaming s;
          s1 = (if \<not> streaming s then snd (start_stream s opened now) else s);
          cal_start_idx = current_sample_idx s1;
          s2 = stream_data s1 arrived;
          cal_end_idx = current_sample_idx s2;
          data = calibration_data s2 cal_start_idx cal_end_idx;
          (s3, report) =
            (if length data > SAMPLE_RATE
             then (s2\<lparr>detection_threshold := 5\<rparr>,
                   Some \<lparr>baseline_mean = np_mean data, baseline_std = np_std data\<rparr>)
             else (s2, None))
      in (if \<not> was_streaming then stop_stream s3 else s3, report))"

definition calibration_start :: "brain_interface \<Rightarrow> bool \<Rightarrow> real \<Rightarrow> brain_interface" where
  \<comment> \<open>The object when \<open>calibrate\<close> reads \<open>cal_start_idx\<close>.\<close>
  "calibration_start s opened now =
     (if \<not> streaming s then snd (start_stream s opened now) else s)"

subsection \<open>The chronological read of \<open>save_data\<close>\<close>

datatype saved = NoData | TypeError | Arrays "real list" "real list" "real list"

definition plot_indices :: "brain_interface \<Rightarrow> nat list" where
  "plot_indices s =
     (if current_sample_idx s < BUFFER_SIZE then [0..<current_sample_idx s]
      else (let current_pos = current_sample_idx s mod BUFFER_SIZE
            in map (\<lambda>i. (current_pos + i) mod BUFFER_SIZE) [0..<BUFFER_SIZE]))"

definition save_data :: "brain_interface \<Rightarrow> saved" where
  \<comment> \<open>The arrays \<open>raw_data\<close>, \<open>filtered_data\<close> and \<open>time_data\<close> that every output format
      writes. \<open>NoData\<close> is the early return on an empty stream; subtracting a
      \<open>start_time\<close> that is still \<open>None\<close> raises.\<close>
  "save_data s =
     (if current_sample_idx s = 0 then NoData
      else case start_time s of
             None \<Rightarrow> TypeError
           | Some st \<Rightarrow>
               Arrays (map (\<lambda>j. raw_buffer s ! j) (plot_indices s))
                      (map (\<lambda>j. filtered_buffer s ! j) (plot_indices s))
                      (map (\<lambda>j. timestamps s ! j - st) (plot_indices s)))"

subsection \<open>Sequences of engine operations\<close>

datatype operation =
    Connect bool
  | Disconnect
  | Start bool real
  | Stop
  | Lines "tick list"
  | Calibrate bool real "tick list"

fun perform :: "brain_interface \<Rightarrow> operation \<Rightarrow> brain_interface" where
  "perform s (Connect opened) = snd (connect s opened)"
| "perform s Disconnect = disconnect s"
| "perform s (Start opened now) = snd (start_stream s opened now)"
| "perform s Stop = stop_stream s"
| "perform s (Lines ticks) = stream_data s ticks"
| "perform s (Calibrate opened now arrived) = fst (calibrate s opened now arrived)"

definition run :: "brain_interface \<Rightarrow> operation list \<Rightarrow> brain_interface" where
  "run s ops = foldl perform s ops"

subsection \<open>The event log\<close>

definition spaced :: "real \<Rightarrow> real list \<Rightarrow> bool" where
  \<comment> \<open>Any two entries of the log, taken in log order, are more than \<open>cd\<close> apart.\<close>
  "spaced cd ts \<longleftrightarrow> (\<forall>j < length ts. \<forall>i < j. cd < ts ! j - ts ! i)"

definition log_inv :: "brain_interface \<Rightarrow> bool" where
  \<comment> \<open>The invariant of the event log: spaced entries, none later than \<open>last_event_time\<close>.\<close>
  "log_inv s \<longleftrightarrow> spaced (cooldown_period s) (event_timestamps s) \<and>
     (\<forall>e \<in> set (event_timestamps s). e \<le> last_event_time s)"

subsection \<open>A concrete engine\<close>

text \<open>
  An engine with two-tap averaging coefficients in both stages
  (\<open>b = [1/2, 1/2]\<close>, \<open>a = [1, 0]\<close>, steady-state vector \<open>[1/2]\<close>), used to evaluate the
  definitions on concrete streams.
\<close>

definition demo :: brain_interface where
  "demo = init [1/2, 1/2] [1, 0] [1/2] [1/2, 1/2] [1, 0] [1/2]"

definition demo_started :: brain_interface where
  "demo_started = snd (start_stream demo True 1)"

definition demo_ticks :: "tick list" where
  "demo_ticks = [(Parsed 2, 2, 2), (ValueError, 3, 3), (Parsed 4, 4, 4)]"

definition demo_first :: brain_interface where
  "demo_first = process_line demo_started (Parsed 2, 2, 2)"

definition demo_disconnected :: brain_interface where
  "demo_disconnected =
     disconnect (demo_started\<lparr>event_count := 3, event_timestamps := [2, 3, 4], last_event_time := 4\<rparr>)"

definition demo_detector :: brain_interface where
  \<comment> \<open>The concrete engine with a window of two samples and threshold 1/2, started.\<close>
  "demo_detector =
     snd (start_stream (demo\<lparr>window_size := 2, detection_threshold := 1 / 2\<rparr>) True 1)"

definition demo_window :: brain_interface where
  "demo_window =
     demo_detector\<lparr>filtered_buffer := (filtered_buffer demo_detector)[0 := 0, 1 := 2]\<rparr>"

definition demo_burst :: "tick list" where
  "demo_burst =
     [(Parsed 0, 2, 2), (Parsed 0, 3, 3), (Parsed 4, 4, 4), (Parsed 4, 5, 21 / 5), (Parsed 8, 6, 5)]"

definition demo_calibration :: "brain_interface \<times> calibration_report option" where
  \<comment> \<open>The concrete engine calibrated on 251 samples.\<close>
  "demo_calibration = calibrate demo True 1 (replicate 251 (Parsed 0, 2, 2))"

section \<open>Properties\<close>

subsection \<open>What each step leaves unchanged\<close>

lemma BUFFER_SIZE_pos: "0 < BUFFER_SIZE"
  by (simp add: BUFFER_SIZE_def)

lemma detect_frame:
  "raw_buffer (detect_neural_event s i t) = raw_buffer s"
  "filtered_buffer (detect_neural_event s i t) = filtered_buffer s"
  "timestamps (detect_neural_event s i t) = timestamps s"
  "running (detect_neural_event s i t) = running s"
  "streaming (detect_neural_event s i t) = streaming s"
  "filter_state (detect_neural_event s i t) = filter_state s"
  "notch_state (detect_neural_event s i t) = notch_state s"
  "current_sample_idx (detect_neural_event s i t) = current_sample_idx s"
  "start_time (detect_neural_event s i t) = start_time s"
  "cooldown_period (detect_neural_event s i t) = cooldown_period s"
  "detection_threshold (detect_neural_event s i t) = detection_threshold s"
  "window_size (detect_neural_event s i t) = window_size s"
  by (simp_all add: detect_neural_event_def record_event_def Let_def)

lemma detect_fires: "detect_neural_event s i t = (if fires s i t then record_event s t else s)"
  by (simp add: detect_neural_event_def fires_def Let_def)

lemma fires_fields:
  assumes "filtered_buffer s' = filtered_buffer s" "window_size s' = window_size s"
    "detection_threshold s' = detection_threshold s" "cooldown_period s' = cooldown_period s"
    "last_event_time s' = last_event_time s"
  shows "fires s' i t = fires s i t"
  using assms by (simp add: fires_def window_data_def window_indices_def)

lemma detect_cooldown: "cooldown_period (detect_neural_event s i now) = cooldown_period s"
  by (simp add: detect_frame)

lemma detect_zero_std: "np_std (window_data q i) = 0 \<Longrightarrow> detect_neural_event q i now = q"
  by (simp add: detect_neural_event_def Let_def)

lemma process_sample_frame:
  "running (process_sample s v t t') = running s"
  "streaming (process_sample s v t t') = streaming s"
  "start_time (process_sample s v t t') = start_time s"
  "cooldown_period (process_sample s v t t') = cooldown_period s"
  "detection_threshold (process_sample s v t t') = detection_threshold s"
  "window_size (process_sample s v t t') = window_size s"
  "current_sample_idx (process_sample s v t t') = current_sample_idx s + 1"
  by (simp_all add: process_sample_def Let_def split_beta detect_frame)

lemma process_sample_coefficients:
  "bp_filter_b (process_sample s v t t') = bp_filter_b s"
  "bp_filter_a (process_sample s v t t') = bp_filter_a s"
  "bp_zi (process_sample s v t t') = bp_zi s"
  "notch_b (process_sample s v t t') = notch_b s"
  "notch_a (process_sample s v t t') = notch_a s"
  "notch_zi (process_sample s v t t') = notch_zi s"
  by (simp_all add: process_sample_def Let_def split_beta detect_fires record_event_def)

lemma process_sample_buffers:
  "raw_buffer (process_sample s v t t') =
     (raw_buffer s)[current_sample_idx s mod BUFFER_SIZE := of_int (decode_sample v)]"
  "timestamps (process_sample s v t t') =
     (timestamps s)[current_sample_idx s mod BUFFER_SIZE := t]"
  "filtered_buffer (process_sample s v t t') =
     (filtered_buffer s)[current_sample_idx s mod BUFFER_SIZE := filtered_value s v]"
  by (simp_all add: process_sample_def Let_def split_beta detect_frame filtered_value_def
        bandpass_def notch_def split: option.split)

lemma process_sample_filter_states:
  "filter_state (process_sample s v t t') = Some (snd (bandpass s (of_int (decode_sample v))))"
  "notch_state (process_sample s v t t') =
     Some (snd (notch s (fst (bandpass s (of_int (decode_sample v))))))"
  by (simp_all add: process_sample_def Let_def split_beta detect_frame bandpass_def notch_def
        split: option.split)

lemma process_sample_events:
  "event_timestamps (process_sample s v t t') =
     (if window_size s \<le> current_sample_idx s \<and>
         fires (s\<lparr>filtered_buffer := (filtered_buffer s)[current_sample_idx s mod BUFFER_SIZE := filtered_value s v]\<rparr>)
           (current_sample_idx s mod BUFFER_SIZE) t'
      then event_timestamps s @ [t'] else event_timestamps s)"
  "last_event_time (process_sample s v t t') =
     (if window_size s \<le> current_sample_idx s \<and>
         fires (s\<lparr>filtered_buffer := (filtered_buffer s)[current_sample_idx s mod BUFFER_SIZE := filtered_value s v]\<rparr>)
           (current_sample_idx s mod BUFFER_SIZE) t'
      then t' else last_event_time s)"
  "event_count (process_sample s v t t') =
     (if window_size s \<le> current_sample_idx s \<and>
         fires (s\<lparr>filtered_buffer := (filtered_buffer s)[current_sample_idx s mod BUFFER_SIZE := filtered_value s v]\<rparr>)
           (current_sample_idx s mod BUFFER_SIZE) t'
      then event_count s + 1 else event_count s)"
proof -
  let ?i = "current_sample_idx s mod BUFFER_SIZE"
  let ?q = "s\<lparr>filtered_buffer := (filtered_buffer s)[?i := filtered_value s v]\<rparr>"
  have eq: "fires (s\<lparr> raw_buffer := a, timestamps := b, filter_state := c, notch_state := d,
                        filtered_buffer := (filtered_buffer s)[?i := filtered_value s v] \<rparr>) ?i t' =
            fires ?q ?i t'" for a b c d
    by (rule fires_fields) simp_all
  have fv: "fst (notch (s\<lparr> raw_buffer := a, timestamps := b, filter_state := c \<rparr>)
                  (fst (bandpass (s\<lparr> raw_buffer := a, timestamps := b \<rparr>) x))) =
            fst (notch s (fst (bandpass s x)))" for a b c x
    by (simp add: notch_def bandpass_def split: option.split)
  show "event_timestamps (process_sample s v t t') =
     (if window_size s \<le> current_sample_idx s \<and> fires ?q ?i t'
      then event_timestamps s @ [t'] else event_timestamps s)"
    by (simp add: process_sample_def Let_def split_beta detect_fires record_event_def
          filtered_value_def fv eq [unfolded filtered_value_def])
  show "last_event_time (process_sample s v t t') =
     (if window_size s \<le> current_sample_idx s \<and> fires ?q ?i t'
      then t' else last_event_time s)"
    by (simp add: process_sample_def Let_def split_beta detect_fires record_event_def
          filtered_value_def fv eq [unfolded filtered_value_def])
  show "event_count (process_sample s v t t') =
     (if window_size s \<le> current_sample_idx s \<and> fires ?q ?i t'
      then event_count s + 1 else event_count s)"
    by (simp add: process_sample_def Let_def split_beta detect_fires record_event_def
          filtered_value_def fv eq [unfolded filtered_value_def])
qed

lemma process_sample_buffers_ok: "buffers_ok s \<Longrightarrow> buffers_ok (process_sample s v t t')"
  by (simp add: buffers_ok_def process_sample_buffers)

lemma process_line_buffers_ok: "buffers_ok s \<Longrightarrow> buffers_ok (process_line s x)"
  by (cases "(s, x)" rule: process_line.cases) (simp_all add: process_sample_buffers_ok)

lemma process_line_streaming: "streaming (process_line s x) = streaming s"
  by (cases "(s, x)" rule: process_line.cases) (simp_all add: process_sample_frame)

lemma process_line_start_time: "start_time (process_line s x) = start_time s"
  by (cases "(s, x)" rule: process_line.cases) (simp_all add: process_sample_frame)

lemma process_line_cooldown: "cooldown_period (process_line s x) = cooldown_period s"
  by (cases "(s, x)" rule: process_line.cases) (simp_all add: process_sample_frame)

lemma process_line_threshold: "detection_threshold (process_line s x) = detection_threshold s"
  by (cases "(s, x)" rule: process_line.cases) (simp_all add: process_sample_frame)

lemma stream_data_buffers_ok: "buffers_ok s \<Longrightarrow> buffers_ok (stream_data s ticks)"
  by (induction ticks arbitrary: s) (simp_all add: process_line_buffers_ok)

lemma stream_data_streaming: "streaming (stream_data s ticks) = streaming s"
  by (induction ticks arbitrary: s) (simp_all add: process_line_streaming)

lemma stream_data_start_time: "start_time (stream_data s ticks) = start_time s"
  by (induction ticks arbitrary: s) (simp_all add: process_line_start_time)

lemma stream_data_cooldown: "cooldown_period (stream_data s ticks) = cooldown_period s"
  by (induction ticks arbitrary: s) (simp_all add: process_line_cooldown)

lemma stream_data_threshold: "detection_threshold (stream_data s ticks) = detection_threshold s"
  by (induction ticks arbitrary: s) (simp_all add: process_line_threshold)

lemma stream_data_stopped: "\<not> streaming s \<Longrightarrow> stream_data s ticks = s"
  by (cases ticks) simp_all

lemma stream_data_append:
  "stream_data s (xs @ ys) = stream_data (stream_data s xs) ys"
proof (induction xs arbitrary: s)
  case Nil
  show ?case by simp
next
  case (Cons x xs)
  show ?case
  proof (cases "streaming s")
    case True
    then show ?thesis by (simp add: Cons.IH)
  next
    case False
    then show ?thesis by (cases ys) simp_all
  qed
qed

lemma ingested_stopped: "\<not> streaming s \<Longrightarrow> ingested s ticks = []"
  by (cases ticks) simp_all

lemma ingested_append:
  "ingested s (xs @ ys) = ingested s xs @ ingested (stream_data s xs) ys"
proof (induction xs arbitrary: s)
  case Nil
  show ?case by simp
next
  case (Cons x xs)
  show ?case
  proof (cases "streaming s")
    case True
    then show ?thesis by (simp add: Cons.IH)
  next
    case False
    then show ?thesis by (cases ys) simp_all
  qed
qed

lemma ingested_length:
  "streaming s \<Longrightarrow> length (ingested s ticks) = length (filter parsed ticks)"
proof (induction ticks arbitrary: s)
  case Nil
  show ?case by simp
next
  case (Cons x xs)
  from Cons.prems have "streaming (process_line s x)" by (simp add: process_line_streaming)
  then have "length (ingested (process_line s x) xs) = length (filter parsed xs)"
    by (rule Cons.IH)
  with Cons.prems show ?case
    by (cases "(s, x)" rule: new_sample.cases) simp_all
qed

lemma stream_data_idx:
  "streaming s \<Longrightarrow>
   current_sample_idx (stream_data s ticks) = current_sample_idx s + length (ingested s ticks)"
proof (induction ticks arbitrary: s)
  case Nil
  show ?case by simp
next
  case (Cons x xs)
  obtain ln t t' where x: "x = (ln, t, t')" by (cases x)
  from Cons.prems have st: "streaming (process_line s x)" by (simp add: process_line_streaming)
  show ?case using Cons.prems Cons.IH [OF st] x
    by (cases ln) (simp_all add: process_sample_frame)
qed

lemma start_stream_True:
  assumes "start_stream s0 opened now = (True, s)"
  shows "streaming s" "current_sample_idx s = 0" "start_time s = Some now"
        "event_count s = 0" "event_timestamps s = []"
        "raw_buffer s = raw_buffer s0" "filtered_buffer s = filtered_buffer s0"
        "timestamps s = timestamps s0" "cooldown_period s = cooldown_period s0"
        "detection_threshold s = detection_threshold s0" "last_event_time s = last_event_time s0"
  using assms
  by (auto simp add: start_stream_def connect_def Let_def split: if_splits)

lemma start_stream_threshold:
  "detection_threshold (snd (start_stream s opened now)) = detection_threshold s"
  by (simp add: start_stream_def connect_def)

lemma start_stream_buffers_ok: "buffers_ok s \<Longrightarrow> buffers_ok (snd (start_stream s opened now))"
  by (simp add: start_stream_def connect_def buffers_ok_def)

subsection \<open>The concrete engine\<close>

lemma demo_ok: "buffers_ok demo"
  by (simp add: demo_def init_def buffers_ok_def)

lemma demo_start: "start_stream demo True 1 = (True, demo_started)"
  by (simp add: demo_started_def demo_def init_def start_stream_def connect_def)

lemma demo_started_ok: "buffers_ok demo_started"
  using demo_ok start_stream_True [OF demo_start] by (simp add: buffers_ok_def)

lemma demo_started_idx: "current_sample_idx demo_started = 0"
  using start_stream_True [OF demo_start] by simp

lemma demo_ingested: "ingested demo_started demo_ticks = [(2, 2, 2), (4, 3, 4)]"
  by (simp add: demo_started_def demo_def init_def start_stream_def connect_def demo_ticks_def
      process_sample_def filtered_value_def bandpass_def notch_def lfilter_def decode_sample_def
      Let_def split_beta detect_neural_event_def BUFFER_SIZE_def)

lemma demo_first_states:
  "filter_state demo_first = Some [1]" "notch_state demo_first = Some [1]"
  "notch_b demo_first = [1/2, 1/2]" "notch_a demo_first = [1, 0]" "notch_zi demo_first = [1/2]"
  "bp_filter_b demo_first = [1/2, 1/2]" "bp_filter_a demo_first = [1, 0]"
  by (simp_all add: demo_first_def demo_started_def demo_def init_def start_stream_def connect_def
      process_sample_def bandpass_def notch_def lfilter_def decode_sample_def
      Let_def split_beta detect_neural_event_def BUFFER_SIZE_def)

subsection \<open>The detector\<close>

lemma np_max_Max: "xs \<noteq> [] \<Longrightarrow> np_max xs = Max (set xs)"
proof (cases xs)
  case Nil
  then show "xs \<noteq> [] \<Longrightarrow> ?thesis" by simp
next
  case (Cons x ys)
  have "foldl max a ys = fold max ys a" for a :: real
    by (induction ys arbitrary: a) (simp_all add: max.commute)
  then show ?thesis using Cons Max.set_eq_fold [of x ys] by simp
qed

lemma np_std_Nil: "np_std [] = 0"
  by (simp add: np_std_def np_mean_def)

lemma max_z_Max:
  assumes "0 < np_std w"
  shows "max_z w = Max ((\<lambda>x. \<bar>x - np_mean w\<bar> / np_std w) ` set w)"
proof -
  from assms have ne: "w \<noteq> []" by (auto simp add: np_std_Nil)
  have "max_z w = Max (set (map (\<lambda>x. \<bar>(x - np_mean w) / np_std w\<bar>) w))"
    using ne by (simp add: max_z_def np_max_Max comp_def)
  also have "(\<lambda>x. \<bar>(x - np_mean w) / np_std w\<bar>) = (\<lambda>x. \<bar>x - np_mean w\<bar> / np_std w)"
    using assms by simp
  finally show ?thesis by simp
qed

text \<open>
  Claim C1. When the population standard deviation of the window is positive, an
  evaluation of the detector fires (the event count changes) if and only if the maximum
  absolute z-score over the window exceeds the detection threshold and the current time
  minus \<open>last_event_time\<close> exceeds the cooldown; on firing the event count goes up by
  one, the current time is appended to the event log and \<open>last_event_time\<close> becomes
  the current time, and nothing else changes; otherwise the object is unchanged.
\<close>

theorem detector_fires_iff:
  assumes "0 < np_std (window_data s i)"
  shows "(event_count (detect_neural_event s i now) \<noteq> event_count s \<longleftrightarrow>
            detection_threshold s <
              Max ((\<lambda>x. \<bar>x - np_mean (window_data s i)\<bar> / np_std (window_data s i)) ` set (window_data s i)) \<and>
            cooldown_period s < now - last_event_time s) \<and>
         (event_count (detect_neural_event s i now) \<noteq> event_count s \<longrightarrow>
            detect_neural_event s i now =
              s\<lparr> event_count := event_count s + 1,
                 event_timestamps := event_timestamps s @ [now],
                 last_event_time := now \<rparr>) \<and>
         (event_count (detect_neural_event s i now) = event_count s \<longrightarrow>
            detect_neural_event s i now = s)"
  using assms max_z_Max [OF assms]
  by (simp add: detect_neural_event_def record_event_def Let_def)

lemma demo_window_data: "window_data demo_window (Suc 0) = [2, 0]"
  by (simp add: window_data_def window_indices_def demo_window_def demo_detector_def demo_def
        init_def start_stream_def connect_def BUFFER_SIZE_def upt_rec)

lemma std_pair: "np_std [x + 2, x] = 1" "max_z [x + 2, x] = 1"
proof -
  have m: "np_mean [x + 2, x] = x + 1" by (simp add: np_mean_def)
  show s: "np_std [x + 2, x] = 1" by (simp add: np_std_def m) (simp add: np_mean_def)
  show "max_z [x + 2, x] = 1" by (simp add: max_z_def m s)
qed

lemma demo_window_fields:
  "event_count demo_window = 0" "event_timestamps demo_window = []"
  "last_event_time demo_window = 0" "cooldown_period demo_window = 1 / 2"
  "detection_threshold demo_window = 1 / 2"
  by (simp_all add: demo_window_def demo_detector_def demo_def init_def start_stream_def connect_def)

theorem detector_fires_iff_witness:
  "0 < np_std (window_data demo_window 1) \<and>
   detect_neural_event demo_window 1 10 =
     demo_window\<lparr>event_count := 1, event_timestamps := [10], last_event_time := 10\<rparr> \<and>
   detect_neural_event demo_window 1 (1 / 4) = demo_window"
proof -
  have w: "window_data demo_window 1 = [0 + 2, 0]" using demo_window_data by simp
  have p: "0 < np_std (window_data demo_window 1)"
    unfolding w std_pair by simp
  have m: "Max ((\<lambda>x. \<bar>x - np_mean (window_data demo_window 1)\<bar> / np_std (window_data demo_window 1)) `
             set (window_data demo_window 1)) = 1"
    using max_z_Max [OF p] unfolding w std_pair by simp
  show ?thesis
    using detector_fires_iff [OF p, of 10] detector_fires_iff [OF p, of "1 / 4"] p
    unfolding m by (simp add: demo_window_fields)
qed

subsection \<open>The cooldown\<close>

lemma spaced_snoc:
  assumes "spaced cd ts" "\<forall>e \<in> set ts. cd < t - e"
  shows "spaced cd (ts @ [t])"
  unfolding spaced_def
proof (intro allI impI)
  fix j i assume j: "j < length (ts @ [t])" and i: "i < j"
  show "cd < (ts @ [t]) ! j - (ts @ [t]) ! i"
  proof (cases "j < length ts")
    case True
    with i assms(1) show ?thesis by (simp add: spaced_def nth_append)
  next
    case False
    with j have "j = length ts" by simp
    with i assms(2) show ?thesis by (simp add: nth_append)
  qed
qed

lemma detect_log_inv:
  assumes "log_inv s" "0 \<le> cooldown_period s"
  shows "log_inv (detect_neural_event s i now)"
proof (cases "detect_neural_event s i now = s")
  case True
  with assms show ?thesis by simp
next
  case False
  then have fire: "cooldown_period s < now - last_event_time s"
    and eq: "detect_neural_event s i now = record_event s now"
    by (auto simp add: detect_neural_event_def Let_def split: if_splits)
  have "\<forall>e \<in> set (event_timestamps s). cooldown_period s < now - e"
    using assms(1) fire by (fastforce simp add: log_inv_def)
  then have "spaced (cooldown_period s) (event_timestamps s @ [now])"
    using assms(1) by (intro spaced_snoc) (simp_all add: log_inv_def)
  moreover have "\<forall>e \<in> set (event_timestamps s @ [now]). e \<le> now"
    using assms fire by (fastforce simp add: log_inv_def)
  ultimately show ?thesis by (simp add: eq log_inv_def record_event_def)
qed

lemma process_sample_log_inv:
  assumes "log_inv s" "0 \<le> cooldown_period s"
  shows "log_inv (process_sample s v t t')"
proof -
  have upd: "log_inv (q\<lparr>current_sample_idx := n\<rparr>) = log_inv q" for q n
    by (simp add: log_inv_def)
  have pre: "log_inv (s\<lparr> raw_buffer := a, timestamps := b, filter_state := c, notch_state := d,
                         filtered_buffer := e \<rparr>)" for a b c d e
    using assms(1) by (simp add: log_inv_def)
  show ?thesis
    using pre assms(2)
    by (simp add: process_sample_def Let_def split_beta upd detect_log_inv)
qed

lemma process_line_log_inv:
  "log_inv s \<Longrightarrow> 0 \<le> cooldown_period s \<Longrightarrow> log_inv (process_line s x)"
  by (cases "(s, x)" rule: process_line.cases) (simp_all add: process_sample_log_inv)

lemma stream_data_log_inv:
  "log_inv s \<Longrightarrow> 0 \<le> cooldown_period s \<Longrightarrow> log_inv (stream_data s ticks)"
  by (induction ticks arbitrary: s)
     (simp_all add: process_line_log_inv process_line_cooldown)

text \<open>
  Claim C2. In the event log of a stream, whatever lines arrive and whatever the clock
  reads, no two events are closer than the cooldown: with a non-negative cooldown each
  later entry exceeds each earlier one by more than the cooldown. And an evaluation on
  a window whose standard deviation is exactly zero leaves the object unchanged, so it
  fires nothing.
\<close>

theorem cooldown_spacing:
  assumes "start_stream s0 opened t0 = (True, s)"
  shows "(0 \<le> cooldown_period s0 \<longrightarrow>
            spaced (cooldown_period s0) (event_timestamps (stream_data s ticks))) \<and>
         (\<forall>j < length (event_timestamps (stream_data s ticks)). \<forall>i < j.
            \<not> \<bar>event_timestamps (stream_data s ticks) ! j - event_timestamps (stream_data s ticks) ! i\<bar>
                < cooldown_period s0) \<and>
         (np_std (window_data q i) = 0 \<longrightarrow> detect_neural_event q i now = q)"
proof -
  note st = start_stream_True [OF assms(1)]
  let ?ts = "event_timestamps (stream_data s ticks)"
  have A: "spaced (cooldown_period s0) ?ts" if nn: "0 \<le> cooldown_period s0"
  proof -
    have "log_inv s" using st by (simp add: log_inv_def spaced_def)
    moreover have "0 \<le> cooldown_period s" using st nn by simp
    ultimately have "log_inv (stream_data s ticks)" by (rule stream_data_log_inv)
    then show ?thesis using st by (simp add: log_inv_def stream_data_cooldown)
  qed
  have B: "\<not> \<bar>?ts ! j - ?ts ! i\<bar> < cooldown_period s0" if "j < length ?ts" "i < j" for i j
  proof (cases "0 \<le> cooldown_period s0")
    case True
    from A [OF True] that have "cooldown_period s0 < ?ts ! j - ?ts ! i"
      by (simp add: spaced_def)
    then show ?thesis by simp
  next
    case False
    then show ?thesis by simp
  qed
  from A B show ?thesis by (simp add: detect_zero_std)
qed

lemma window_pair:
  assumes "window_size s = 2" "0 < i" "i < BUFFER_SIZE"
  shows "window_data s i = [filtered_buffer s ! i, filtered_buffer s ! (i - 1)]"
proof -
  have "[0..<2] = [0, Suc 0]" by (simp add: upt_rec)
  moreover have "nat (int i mod int BUFFER_SIZE) = i" using assms(3) by simp
  moreover have "nat ((int i - 1) mod int BUFFER_SIZE) = i - 1" using assms(2,3) by simp
  ultimately show ?thesis using assms(1) by (simp add: window_data_def window_indices_def)
qed

lemma demo_burst_log: "event_timestamps (stream_data demo_detector demo_burst) = [4, 5]"
proof -
  define static :: "brain_interface \<Rightarrow> bool" where "static = (\<lambda>s. streaming s \<and> window_size s = 2 \<and>
     detection_threshold s = 1 / 2 \<and> cooldown_period s = 1 / 2 \<and>
     bp_filter_b s = [1 / 2, 1 / 2] \<and> bp_filter_a s = [1, 0] \<and> bp_zi s = [1 / 2] \<and>
     notch_b s = [1 / 2, 1 / 2] \<and> notch_a s = [1, 0] \<and> notch_zi s = [1 / 2] \<and>
     length (filtered_buffer s) = 1250)"
  have step: "static (process_sample s v t t')" if "static s" for s v t t'
    using that
    by (simp add: static_def process_sample_frame process_sample_coefficients process_sample_buffers)
  have fire: "fires (s\<lparr>filtered_buffer := (filtered_buffer s)[i := x + 2]\<rparr>) i t' \<longleftrightarrow>
                1 / 2 < t' - last_event_time s"
    if "static s" "0 < i" "i < 1250" "filtered_buffer s ! (i - 1) = x" for s i t' x
    using that
    by (auto simp add: fires_def static_def window_pair BUFFER_SIZE_def std_pair)
  define b1 where "b1 = process_sample demo_detector 0 2 2"
  define b2 where "b2 = process_sample b1 0 3 3"
  define b3 where "b3 = process_sample b2 4 4 4"
  define b4 where "b4 = process_sample b3 4 5 (21 / 5)"
  define b5 where "b5 = process_sample b4 8 6 5"
  have s0: "static demo_detector"
    by (simp add: static_def demo_detector_def demo_def init_def start_stream_def connect_def
          BUFFER_SIZE_def)
  have s1: "static b1" unfolding b1_def using s0 by (rule step)
  have s2: "static b2" unfolding b2_def using s1 by (rule step)
  have s3: "static b3" unfolding b3_def using s2 by (rule step)
  have s4: "static b4" unfolding b4_def using s3 by (rule step)
  note eval = process_sample_filter_states process_sample_frame process_sample_buffers
    process_sample_events filtered_value_def bandpass_def notch_def lfilter_def decode_sample_def
    BUFFER_SIZE_def
  have f0: "filter_state demo_detector = None" "notch_state demo_detector = None"
    "current_sample_idx demo_detector = 0" "event_timestamps demo_detector = []"
    "last_event_time demo_detector = 0"
    by (simp_all add: demo_detector_def demo_def init_def start_stream_def connect_def)
  have f1: "filter_state b1 = Some [0]" "notch_state b1 = Some [0]"
    "current_sample_idx b1 = 1" "filtered_buffer b1 ! 0 = 0" "event_timestamps b1 = []"
    "last_event_time b1 = 0"
    using s0 f0 unfolding b1_def static_def by (simp_all add: eval)
  have f2: "filter_state b2 = Some [0]" "notch_state b2 = Some [0]"
    "current_sample_idx b2 = 2" "filtered_buffer b2 ! 1 = 0" "event_timestamps b2 = []"
    "last_event_time b2 = 0"
    using s1 f1 unfolding b2_def static_def by (simp_all add: eval)
  have v3: "filtered_value b2 4 = 0 + 2"
    using s2 f2 unfolding static_def by (simp add: eval)
  have f3: "filter_state b3 = Some [2]" "notch_state b3 = Some [1]"
    "current_sample_idx b3 = 3" "filtered_buffer b3 ! 2 = 2" "event_timestamps b3 = [4]"
    "last_event_time b3 = 4"
    using s2 f2 fire [OF s2, of 2 0 4] unfolding b3_def
    by (simp_all add: process_sample_filter_states process_sample_frame process_sample_buffers
          process_sample_events v3 BUFFER_SIZE_def)
       (simp_all add: static_def bandpass_def notch_def lfilter_def decode_sample_def)
  have v4: "filtered_value b3 4 = 2 + 2"
    using s3 f3 unfolding static_def by (simp add: eval)
  have f4: "filter_state b4 = Some [2]" "notch_state b4 = Some [2]"
    "current_sample_idx b4 = 4" "filtered_buffer b4 ! 3 = 4" "event_timestamps b4 = [4]"
    "last_event_time b4 = 4"
    using s3 f3 fire [OF s3, of 3 2 "21 / 5"] unfolding b4_def
    by (simp_all add: process_sample_filter_states process_sample_frame process_sample_buffers
          process_sample_events v4 BUFFER_SIZE_def)
       (simp_all add: static_def bandpass_def notch_def lfilter_def decode_sample_def)
  have v5: "filtered_value b4 8 = 4 + 2"
    using s4 f4 unfolding static_def by (simp add: eval)
  have f5: "event_timestamps b5 = [4, 5]"
    using s4 f4 fire [OF s4, of 4 4 5] unfolding b5_def
    by (simp add: process_sample_events v5 BUFFER_SIZE_def) (simp add: static_def)
  have "stream_data demo_detector demo_burst = b5"
    using s0 s1 s2 s3 s4
    by (simp add: demo_burst_def static_def b1_def [symmetric] b2_def [symmetric]
          b3_def [symmetric] b4_def [symmetric] b5_def [symmetric])
  with f5 show ?thesis by simp
qed

lemma demo_detector_start:
  "start_stream (demo\<lparr>window_size := 2, detection_threshold := 1 / 2\<rparr>) True 1 = (True, demo_detector)"
  by (simp add: demo_detector_def demo_def init_def start_stream_def connect_def)

theorem cooldown_spacing_witness:
  "start_stream (demo\<lparr>window_size := 2, detection_threshold := 1 / 2\<rparr>) True 1 = (True, demo_detector) \<and>
   event_timestamps (stream_data demo_detector demo_burst) = [4, 5] \<and>
   spaced (1 / 2) [4, 5]"
proof -
  have c: "cooldown_period (demo\<lparr>window_size := 2, detection_threshold := 1 / 2\<rparr>) = 1 / 2"
    by (simp add: demo_def init_def)
  show ?thesis
    using cooldown_spacing [OF demo_detector_start, of demo_burst demo 0 0] demo_detector_start
    by (simp add: demo_burst_log c)
qed

subsection \<open>The sample counter\<close>

text \<open>
  Claim C3 says that no engine operation resets the sample counter. After two samples
  the counter is 2; stopping and starting again puts it back to 0.
\<close>

theorem counter_reset_counterexample:
  "current_sample_idx (stream_data demo_started demo_ticks) = 2 \<and>
   current_sample_idx (snd (start_stream (stop_stream (stream_data demo_started demo_ticks)) True 5)) = 0"
proof -
  have "streaming demo_started" using start_stream_True [OF demo_start] by simp
  then have "current_sample_idx (stream_data demo_started demo_ticks) = 2"
    by (simp add: stream_data_idx demo_ingested demo_started_idx)
  then show ?thesis
    by (simp add: start_stream_def connect_def Let_def split_beta)
qed

text \<open>
  Claim C3, amended. Every parsed sample increases the counter by exactly one and a
  malformed line leaves it alone, so that a running stream has counted its parsed
  lines (the counter does not wrap with the buffer); \<open>stop_stream\<close> does not change it;
  a \<open>start_stream\<close> that succeeds resets it to 0, and one that fails changes nothing.
\<close>

theorem counter_per_operation:
  "current_sample_idx (process_line s (Parsed v, t, t')) = current_sample_idx s + 1 \<and>
   current_sample_idx (process_line s (UnicodeDecodeError, t, t')) = current_sample_idx s \<and>
   current_sample_idx (process_line s (ValueError, t, t')) = current_sample_idx s \<and>
   (streaming s \<longrightarrow>
      current_sample_idx (stream_data s ticks) = current_sample_idx s + length (filter parsed ticks)) \<and>
   current_sample_idx (stop_stream s) = current_sample_idx s \<and>
   (fst (start_stream s opened now) \<longrightarrow> current_sample_idx (snd (start_stream s opened now)) = 0) \<and>
   (\<not> fst (start_stream s opened now) \<longrightarrow> snd (start_stream s opened now) = s)"
  by (simp add: process_sample_frame stream_data_idx ingested_length stop_stream_def
        start_stream_def connect_def Let_def split_beta)

theorem counter_per_operation_witness:
  "streaming demo_started \<and> fst (start_stream demo True 1) \<and> \<not> fst (start_stream demo False 1) \<and>
   current_sample_idx (stream_data demo_started demo_ticks) = 2 \<and>
   current_sample_idx (snd (start_stream demo True 1)) = 0 \<and>
   snd (start_stream demo False 1) = demo"
proof -
  have a: "streaming demo_started" using start_stream_True [OF demo_start] by simp
  have b: "fst (start_stream demo True 1)" by (simp add: demo_start)
  have c: "\<not> fst (start_stream demo False 1)"
    by (simp add: start_stream_def connect_def demo_def init_def)
  show ?thesis
    using counter_per_operation [of demo_started 0 0 0 demo_ticks True 0]
          counter_per_operation [of demo 0 0 0 "[]" True 1]
          counter_per_operation [of demo 0 0 0 "[]" False 1] a b c
    by (simp add: demo_started_idx demo_ticks_def)
qed

subsection \<open>The filter stages\<close>

text \<open>
  Claim C4 on the code. The bandpass stage is stateful: with a stored \<open>filter_state\<close>
  it runs \<open>lfilter\<close> from that state. The notch stage is not: its output, its next state
  and the value written to \<open>filtered_buffer\<close> are the same whatever \<open>notch_state\<close> the
  previous call left. On the concrete engine, after a first sample 2 the stored notch
  state is \<open>[1]\<close>; the second sample 4 leaves the bandpass as 3, the notch stage of the
  source returns 3, and \<open>lfilter\<close> run from the stored state would return 5/2.
\<close>

theorem notch_ignores_its_state:
  "notch (s\<lparr>notch_state := Some z1\<rparr>) x = notch (s\<lparr>notch_state := Some z2\<rparr>) x \<and>
   filtered_buffer (process_sample (s\<lparr>notch_state := Some z1\<rparr>) v t t') =
     filtered_buffer (process_sample (s\<lparr>notch_state := Some z2\<rparr>) v t t') \<and>
   bandpass (s\<lparr>filter_state := Some z1\<rparr>) x = lfilter (bp_filter_b s) (bp_filter_a s) x z1 \<and>
   notch_state demo_first = Some [1] \<and>
   fst (bandpass demo_first 4) = 3 \<and>
   fst (notch demo_first 3) = 3 \<and>
   fst (lfilter (notch_b demo_first) (notch_a demo_first) 3 [1]) = 5 / 2"
proof -
  have n: "notch (s\<lparr>notch_state := Some z1\<rparr>) y = notch (s\<lparr>notch_state := Some z2\<rparr>) y" for y
    by (simp add: notch_def)
  have b: "bandpass (s\<lparr>notch_state := Some z\<rparr>) y = bandpass s y" for z y
    by (simp add: bandpass_def split: option.split)
  have f: "filtered_value (s\<lparr>notch_state := Some z1\<rparr>) v = filtered_value (s\<lparr>notch_state := Some z2\<rparr>) v"
    by (simp add: filtered_value_def b n)
  have p: "filtered_buffer (process_sample (s\<lparr>notch_state := Some z1\<rparr>) v t t') =
             filtered_buffer (process_sample (s\<lparr>notch_state := Some z2\<rparr>) v t t')"
    by (simp add: process_sample_buffers f)
  have bp: "bandpass (s\<lparr>filter_state := Some z1\<rparr>) x = lfilter (bp_filter_b s) (bp_filter_a s) x z1"
    by (simp add: bandpass_def)
  have c1: "fst (bandpass demo_first 4) = 3"
    by (simp add: bandpass_def demo_first_states lfilter_def)
  have c2: "fst (notch demo_first 3) = 3"
    by (simp add: notch_def demo_first_states lfilter_def)
  have c3: "fst (lfilter (notch_b demo_first) (notch_a demo_first) 3 [1]) = 5 / 2"
    by (simp add: demo_first_states lfilter_def)
  from n p bp c1 c2 c3 demo_first_states(2) show ?thesis by blast
qed

subsection \<open>The ring buffer\<close>

lemma slot_process_sample:
  assumes "buffers_ok s"
  shows "slot (process_sample s v t t') j =
           (if j = current_sample_idx s mod BUFFER_SIZE
            then (of_int (decode_sample v), filtered_value s v, t)
            else slot s j)"
proof -
  have "current_sample_idx s mod BUFFER_SIZE < BUFFER_SIZE"
    by (simp add: BUFFER_SIZE_pos)
  with assms show ?thesis
    by (simp add: slot_def process_sample_buffers buffers_ok_def)
qed

lemma mod_distinct:
  fixes k b C :: nat
  assumes "k < b" "b < k + C"
  shows "k mod C \<noteq> b mod C"
proof
  assume "k mod C = b mod C"
  then have "b mod C = k mod C" by simp
  moreover have "k \<le> b" using assms(1) by simp
  ultimately have "C dvd b - k" by (simp add: mod_eq_dvd_iff_nat)
  moreover have "0 < b - k" "b - k < C" using assms by simp_all
  ultimately show False by (auto dest: dvd_imp_le)
qed

lemma ring_slots:
  assumes "buffers_ok s" "streaming s"
  shows "current_sample_idx s \<le> k \<Longrightarrow> k < current_sample_idx s + length (ingested s ticks) \<Longrightarrow>
         current_sample_idx s + length (ingested s ticks) \<le> k + BUFFER_SIZE \<Longrightarrow>
         slot (stream_data s ticks) (k mod BUFFER_SIZE) = ingested s ticks ! (k - current_sample_idx s)"
proof (induction ticks arbitrary: k rule: rev_induct)
  case Nil
  then show ?case by simp
next
  case (snoc x xs)
  let ?s' = "stream_data s xs"
  let ?a = "current_sample_idx s"
  let ?n = "length (ingested s xs)"
  obtain ln t t' where x: "x = (ln, t, t')" by (cases x)
  have st: "streaming ?s'" using assms(2) by (simp add: stream_data_streaming)
  have ok: "buffers_ok ?s'" using assms(1) by (rule stream_data_buffers_ok)
  have idx: "current_sample_idx ?s' = ?a + ?n" using assms(2) by (rule stream_data_idx)
  show ?case
  proof (cases ln)
    case (Parsed v)
    have ing: "ingested s (xs @ [x]) =
                 ingested s xs @ [(of_int (decode_sample v), filtered_value ?s' v, t)]"
      using st x Parsed by (simp add: ingested_append)
    have sd: "stream_data s (xs @ [x]) = process_sample ?s' v t t'"
      using st x Parsed by (simp add: stream_data_append)
    show ?thesis
    proof (cases "k = ?a + ?n")
      case True
      then show ?thesis using ok idx by (simp add: ing sd slot_process_sample)
    next
      case False
      with snoc.prems have lt: "k < ?a + ?n" and le: "?a + ?n < k + BUFFER_SIZE"
        by (simp_all add: ing)
      then have ne: "k mod BUFFER_SIZE \<noteq> (?a + ?n) mod BUFFER_SIZE"
        by (rule mod_distinct)
      have "slot (stream_data s xs) (k mod BUFFER_SIZE) = ingested s xs ! (k - ?a)"
        using snoc.prems(1) lt le by (intro snoc.IH) simp_all
      moreover have "k - ?a < ?n" using lt snoc.prems(1) by simp
      ultimately show ?thesis using ok idx ne
        by (simp add: ing sd slot_process_sample nth_append)
    qed
  next
    case UnicodeDecodeError
    then have "stream_data s (xs @ [x]) = ?s'" "ingested s (xs @ [x]) = ingested s xs"
      using st x by (simp_all add: stream_data_append ingested_append)
    then show ?thesis using snoc by simp
  next
    case ValueError
    then have "stream_data s (xs @ [x]) = ?s'" "ingested s (xs @ [x]) = ingested s xs"
      using st x by (simp_all add: stream_data_append ingested_append)
    then show ?thesis using snoc by simp
  qed
qed

lemma chronological_slots:
  assumes ok: "buffers_ok s" and st: "streaming s" and zero: "current_sample_idx s = 0"
  shows "map (slot (stream_data s ticks)) (plot_indices (stream_data s ticks)) =
           drop (length (ingested s ticks) - BUFFER_SIZE) (ingested s ticks)"
proof -
  let ?s' = "stream_data s ticks"
  let ?n = "length (ingested s ticks)"
  have idx: "current_sample_idx ?s' = ?n" using stream_data_idx [OF st, of ticks] zero by simp
  have ring: "slot ?s' (k mod BUFFER_SIZE) = ingested s ticks ! k"
    if "k < ?n" "?n \<le> k + BUFFER_SIZE" for k
    using ring_slots [OF ok st, of k ticks] that zero by simp
  show ?thesis
  proof (cases "?n < BUFFER_SIZE")
    case True
    have "map (slot ?s') [0..<?n] = ingested s ticks"
    proof (rule nth_equalityI)
      show "length (map (slot ?s') [0..<?n]) = ?n" by simp
    next
      fix i assume "i < length (map (slot ?s') [0..<?n])"
      then have i: "i < ?n" by simp
      with True have "i mod BUFFER_SIZE = i" by simp
      with ring [of i] i True show "map (slot ?s') [0..<?n] ! i = ingested s ticks ! i"
        by simp
    qed
    with True idx show ?thesis by (simp add: plot_indices_def)
  next
    case False
    then have ge: "BUFFER_SIZE \<le> ?n" by simp
    have "map (\<lambda>i. slot ?s' ((?n mod BUFFER_SIZE + i) mod BUFFER_SIZE)) [0..<BUFFER_SIZE] =
            drop (?n - BUFFER_SIZE) (ingested s ticks)"
    proof (rule nth_equalityI)
      show "length (map (\<lambda>i. slot ?s' ((?n mod BUFFER_SIZE + i) mod BUFFER_SIZE)) [0..<BUFFER_SIZE]) =
              length (drop (?n - BUFFER_SIZE) (ingested s ticks))"
        using ge by simp
    next
      fix i
      assume "i < length (map (\<lambda>i. slot ?s' ((?n mod BUFFER_SIZE + i) mod BUFFER_SIZE)) [0..<BUFFER_SIZE])"
      then have i: "i < BUFFER_SIZE" by simp
      have "(?n mod BUFFER_SIZE + i) mod BUFFER_SIZE = (?n + i) mod BUFFER_SIZE"
        by (simp add: mod_add_left_eq)
      also have "?n + i = (?n - BUFFER_SIZE + i) + BUFFER_SIZE" using ge by simp
      also have "\<dots> mod BUFFER_SIZE = (?n - BUFFER_SIZE + i) mod BUFFER_SIZE" by simp
      finally have "slot ?s' ((?n mod BUFFER_SIZE + i) mod BUFFER_SIZE) =
                      ingested s ticks ! (?n - BUFFER_SIZE + i)"
        using ring [of "?n - BUFFER_SIZE + i"] i ge by simp
      with i ge show "map (\<lambda>i. slot ?s' ((?n mod BUFFER_SIZE + i) mod BUFFER_SIZE)) [0..<BUFFER_SIZE] ! i =
                        drop (?n - BUFFER_SIZE) (ingested s ticks) ! i"
        by simp
    qed
    with False idx show ?thesis by (simp add: plot_indices_def Let_def comp_def)
  qed
qed

text \<open>
  Claim C5. A write stores the sample with sequence number \<open>k\<close> at slot
  \<open>k mod BUFFER_SIZE\<close>, where it stays for as long as it is among the \<open>BUFFER_SIZE\<close> most
  recent ones; and the chronological read of \<open>save_data\<close> on a stream returns the
  samples stored so far, oldest first, when there are fewer than \<open>BUFFER_SIZE\<close> of them,
  and exactly the \<open>BUFFER_SIZE\<close> most recent ones, oldest first, once the buffer has
  wrapped (timestamps relative to the start of the stream).
\<close>

theorem ring_buffer_read:
  assumes "buffers_ok s0" and "start_stream s0 opened now = (True, s)"
  shows "(buffers_ok q \<longrightarrow>
            slot (process_sample q v t t') (current_sample_idx q mod BUFFER_SIZE) =
              (of_int (decode_sample v), filtered_value q v, t)) \<and>
         (\<forall>k < length (ingested s ticks). length (ingested s ticks) \<le> k + BUFFER_SIZE \<longrightarrow>
            slot (stream_data s ticks) (k mod BUFFER_SIZE) = ingested s ticks ! k) \<and>
         save_data (stream_data s ticks) =
           (if ingested s ticks = [] then NoData
            else Arrays
              (map fst (drop (length (ingested s ticks) - BUFFER_SIZE) (ingested s ticks)))
              (map (\<lambda>x. fst (snd x)) (drop (length (ingested s ticks) - BUFFER_SIZE) (ingested s ticks)))
              (map (\<lambda>x. snd (snd x) - now) (drop (length (ingested s ticks) - BUFFER_SIZE) (ingested s ticks))))"
proof -
  note st = start_stream_True [OF assms(2)]
  have ok: "buffers_ok s" using assms(1) st by (simp add: buffers_ok_def)
  let ?s' = "stream_data s ticks"
  let ?recent = "drop (length (ingested s ticks) - BUFFER_SIZE) (ingested s ticks)"
  have idx: "current_sample_idx ?s' = length (ingested s ticks)"
    using stream_data_idx [OF st(1), of ticks] st(2) by simp
  have chrono: "map (slot ?s') (plot_indices ?s') = ?recent"
    using ok st(1) st(2) by (rule chronological_slots)
  have raw: "map (\<lambda>j. raw_buffer ?s' ! j) (plot_indices ?s') = map fst ?recent"
    unfolding chrono [symmetric] by (simp add: slot_def)
  have fil: "map (\<lambda>j. filtered_buffer ?s' ! j) (plot_indices ?s') = map (\<lambda>x. fst (snd x)) ?recent"
    unfolding chrono [symmetric] by (simp add: slot_def)
  have tim: "map (\<lambda>j. timestamps ?s' ! j - now) (plot_indices ?s') = map (\<lambda>x. snd (snd x) - now) ?recent"
    unfolding chrono [symmetric] by (simp add: slot_def)
  have A: "buffers_ok q \<longrightarrow>
            slot (process_sample q v t t') (current_sample_idx q mod BUFFER_SIZE) =
              (of_int (decode_sample v), filtered_value q v, t)"
    by (simp add: slot_process_sample)
  have B: "\<forall>k < length (ingested s ticks). length (ingested s ticks) \<le> k + BUFFER_SIZE \<longrightarrow>
            slot ?s' (k mod BUFFER_SIZE) = ingested s ticks ! k"
    using ring_slots [OF ok st(1), of _ ticks] st(2) by simp
  have C: "save_data ?s' =
           (if ingested s ticks = [] then NoData
            else Arrays (map fst ?recent) (map (\<lambda>x. fst (snd x)) ?recent)
                        (map (\<lambda>x. snd (snd x) - now) ?recent))"
    using idx st(3) by (simp add: save_data_def stream_data_start_time raw fil tim)
  from A B C show ?thesis by blast
qed

theorem ring_buffer_read_witness:
  "buffers_ok demo \<and> start_stream demo True 1 = (True, demo_started) \<and>
   save_data (stream_data demo_started demo_ticks) = Arrays [2, 4] [2, 3] [1, 3]"
  using ring_buffer_read [OF demo_ok demo_start, where ticks = demo_ticks] demo_ok demo_start
  by (simp add: demo_ingested BUFFER_SIZE_def)

subsection \<open>Calibration\<close>

lemma calibration_start_facts:
  "detection_threshold (calibration_start s opened now) = detection_threshold s"
  "buffers_ok s \<Longrightarrow> buffers_ok (calibration_start s opened now)"
  "streaming (calibration_start s opened now) \<longleftrightarrow> streaming s \<or> running s \<or> opened"
  by (simp_all add: calibration_start_def start_stream_threshold start_stream_buffers_ok)
     (simp add: start_stream_def connect_def)

lemma calibrate_unfold:
  "calibrate s opened now arrived =
     (let s1 = calibration_start s opened now;
          s2 = stream_data s1 arrived;
          data = calibration_data s2 (current_sample_idx s1) (current_sample_idx s2);
          s3 = (if length data > SAMPLE_RATE then s2\<lparr>detection_threshold := 5\<rparr> else s2)
      in (if \<not> streaming s then stop_stream s3 else s3,
          if length data > SAMPLE_RATE
          then Some \<lparr>baseline_mean = np_mean data, baseline_std = np_std data\<rparr> else None))"
  by (simp add: calibrate_def calibration_start_def Let_def)

lemma calibration_data_length:
  assumes "n \<le> BUFFER_SIZE"
  shows "length (calibration_data s a (a + n)) = n"
  using assms by (simp add: calibration_data_def)

lemma calibrate_threshold:
  assumes "streaming s \<or> running s \<or> opened" and "length (filter parsed arrived) \<le> BUFFER_SIZE"
  shows "detection_threshold (fst (calibrate s opened now arrived)) =
           (if length (filter parsed arrived) > SAMPLE_RATE then 5 else detection_threshold s)"
    and "snd (calibrate s opened now arrived) = None \<longleftrightarrow> length (filter parsed arrived) \<le> SAMPLE_RATE"
proof -
  let ?s1 = "calibration_start s opened now"
  let ?s2 = "stream_data ?s1 arrived"
  let ?n = "length (filter parsed arrived)"
  have st: "streaming ?s1" using assms(1) by (simp add: calibration_start_facts)
  have idx: "current_sample_idx ?s2 = current_sample_idx ?s1 + ?n"
    using st by (simp add: stream_data_idx ingested_length)
  have len: "length (calibration_data ?s2 (current_sample_idx ?s1) (current_sample_idx ?s2)) = ?n"
    unfolding idx using assms(2) by (rule calibration_data_length)
  show "detection_threshold (fst (calibrate s opened now arrived)) =
           (if ?n > SAMPLE_RATE then 5 else detection_threshold s)"
    by (simp add: calibrate_unfold Let_def len stop_stream_def stream_data_threshold
          calibration_start_facts)
  show "snd (calibrate s opened now arrived) = None \<longleftrightarrow> ?n \<le> SAMPLE_RATE"
    by (simp add: calibrate_unfold Let_def len)
qed

text \<open>
  Claim C6 on the code. A calibration run that collects exactly \<open>SAMPLE_RATE\<close> samples,
  one full second, takes the branch "Not enough data for calibration" and leaves the
  threshold as it was, in every engine state whose port opens; one more sample and the
  threshold is set. The test is \<open>len(calibration_data) > SAMPLE_RATE\<close> under the comment
  "Ensure we have at least 1s of data".
\<close>

theorem one_second_of_samples_rejected:
  "snd (calibrate s True now (replicate SAMPLE_RATE (Parsed v, t, t'))) = None \<and>
   detection_threshold (fst (calibrate s True now (replicate SAMPLE_RATE (Parsed v, t, t')))) =
     detection_threshold s \<and>
   snd (calibrate s True now (replicate (SAMPLE_RATE + 1) (Parsed v, t, t'))) \<noteq> None \<and>
   detection_threshold (fst (calibrate s True now (replicate (SAMPLE_RATE + 1) (Parsed v, t, t')))) = 5"
proof -
  have a: "length (filter parsed (replicate n (Parsed v, t, t'))) = n" for n
    by simp
  have b: "SAMPLE_RATE \<le> BUFFER_SIZE" "SAMPLE_RATE + 1 \<le> BUFFER_SIZE"
    by (simp_all add: SAMPLE_RATE_def BUFFER_SIZE_def)
  have c: "streaming s \<or> running s \<or> True" by simp
  show ?thesis
    using calibrate_threshold [OF c, of "replicate SAMPLE_RATE (Parsed v, t, t')" now]
          calibrate_threshold [OF c, of "replicate (SAMPLE_RATE + 1) (Parsed v, t, t')" now] b
    by (simp only: a) simp
qed

lemma np_mean_mset: "mset xs = mset ys \<Longrightarrow> np_mean xs = np_mean ys"
proof -
  assume eq: "mset xs = mset ys"
  then have "sum_mset (mset xs) = sum_mset (mset ys)" by simp
  then have "sum_list xs = sum_list ys" by (simp add: sum_mset_sum_list)
  moreover have "length xs = length ys" using eq by (rule mset_eq_length)
  ultimately show ?thesis by (simp add: np_mean_def)
qed

lemma np_std_mset: "mset xs = mset ys \<Longrightarrow> np_std xs = np_std ys"
proof -
  assume eq: "mset xs = mset ys"
  then have m: "np_mean xs = np_mean ys" by (rule np_mean_mset)
  have "mset (map (\<lambda>x. \<bar>x - np_mean ys\<bar>\<^sup>2) xs) = mset (map (\<lambda>x. \<bar>x - np_mean ys\<bar>\<^sup>2) ys)"
    using eq by (metis mset_map)
  then have "np_mean (map (\<lambda>x. \<bar>x - np_mean ys\<bar>\<^sup>2) xs) = np_mean (map (\<lambda>x. \<bar>x - np_mean ys\<bar>\<^sup>2) ys)"
    by (rule np_mean_mset)
  then show ?thesis by (simp add: np_std_def m)
qed

lemma mset_rotate_eq: "mset (rotate n xs) = mset xs"
proof -
  let ?k = "n mod length xs"
  have "mset (rotate n xs) = mset (drop ?k xs) + mset (take ?k xs)"
    by (simp add: rotate_drop_take)
  also have "\<dots> = mset (take ?k xs @ drop ?k xs)"
    by (simp only: mset_append add.commute)
  finally show ?thesis by simp
qed

lemma calibration_data_recent:
  assumes ok: "buffers_ok s" and st: "streaming s"
  shows "mset (calibration_data (stream_data s arrived) (current_sample_idx s)
                 (current_sample_idx (stream_data s arrived))) =
         mset (map (\<lambda>x. fst (snd x))
                 (drop (length (ingested s arrived) - BUFFER_SIZE) (ingested s arrived)))"
proof -
  let ?s' = "stream_data s arrived"
  let ?ing = "ingested s arrived"
  let ?n = "length ?ing"
  let ?a = "current_sample_idx s"
  let ?fb = "filtered_buffer ?s'"
  have idx: "current_sample_idx ?s' = ?a + ?n" using st by (rule stream_data_idx)
  have len: "length ?fb = BUFFER_SIZE"
    using stream_data_buffers_ok [OF ok, of arrived] by (simp add: buffers_ok_def)
  have ring: "?fb ! (k mod BUFFER_SIZE) = fst (snd (?ing ! (k - ?a)))"
    if "?a \<le> k" "k < ?a + ?n" "?a + ?n \<le> k + BUFFER_SIZE" for k
    using ring_slots [OF ok st that] by (auto simp add: slot_def dest: sym)
  show ?thesis
  proof (cases "?n \<le> BUFFER_SIZE")
    case True
    have "map (\<lambda>i. ?fb ! (i mod BUFFER_SIZE)) [?a..<?a + ?n] = map (\<lambda>x. fst (snd x)) ?ing"
    proof (rule nth_equalityI)
      show "length (map (\<lambda>i. ?fb ! (i mod BUFFER_SIZE)) [?a..<?a + ?n]) =
              length (map (\<lambda>x. fst (snd x)) ?ing)" by simp
    next
      fix i assume "i < length (map (\<lambda>i. ?fb ! (i mod BUFFER_SIZE)) [?a..<?a + ?n])"
      then have i: "i < ?n" by simp
      with True ring [of "?a + i"]
      show "map (\<lambda>i. ?fb ! (i mod BUFFER_SIZE)) [?a..<?a + ?n] ! i = map (\<lambda>x. fst (snd x)) ?ing ! i"
        by simp
    qed
    with True show ?thesis by (simp add: calibration_data_def idx)
  next
    case False
    then have gt: "BUFFER_SIZE < ?n" by simp
    let ?b = "?a + ?n"
    have "rotate (?b mod BUFFER_SIZE) ?fb =
            map (\<lambda>x. fst (snd x)) (drop (?n - BUFFER_SIZE) ?ing)"
    proof (rule nth_equalityI)
      show "length (rotate (?b mod BUFFER_SIZE) ?fb) =
              length (map (\<lambda>x. fst (snd x)) (drop (?n - BUFFER_SIZE) ?ing))"
        using gt len by simp
    next
      fix i assume "i < length (rotate (?b mod BUFFER_SIZE) ?fb)"
      then have i: "i < BUFFER_SIZE" using len by simp
      let ?k = "?b - BUFFER_SIZE + i"
      have "rotate (?b mod BUFFER_SIZE) ?fb ! i = ?fb ! ((?b mod BUFFER_SIZE + i) mod BUFFER_SIZE)"
        using i len by (simp add: nth_rotate)
      also have "(?b mod BUFFER_SIZE + i) mod BUFFER_SIZE = (?b + i) mod BUFFER_SIZE"
        by (simp add: mod_add_left_eq)
      also have "?b + i = ?k + BUFFER_SIZE" using gt by simp
      also have "(?k + BUFFER_SIZE) mod BUFFER_SIZE = ?k mod BUFFER_SIZE" by simp
      also have "?fb ! (?k mod BUFFER_SIZE) = fst (snd (?ing ! (?k - ?a)))"
        using gt i by (intro ring) simp_all
      also have "?k - ?a = ?n - BUFFER_SIZE + i" using gt by simp
      finally show "rotate (?b mod BUFFER_SIZE) ?fb ! i =
                      map (\<lambda>x. fst (snd x)) (drop (?n - BUFFER_SIZE) ?ing) ! i"
        using gt i by simp
    qed
    then have "mset ?fb = mset (map (\<lambda>x. fst (snd x)) (drop (?n - BUFFER_SIZE) ?ing))"
      by (metis mset_rotate_eq)
    with gt show ?thesis by (simp add: calibration_data_def idx)
  qed
qed

lemma calibrate_threshold_cases:
  "detection_threshold (fst (calibrate s opened now arrived)) = 5 \<or>
   detection_threshold (fst (calibrate s opened now arrived)) = detection_threshold s"
  by (simp add: calibrate_unfold Let_def stop_stream_def stream_data_threshold
        calibration_start_facts)

lemma perform_threshold:
  "detection_threshold s = 5 \<Longrightarrow> detection_threshold (perform s x) = 5"
proof (cases x)
  case (Calibrate opened now arrived)
  assume "detection_threshold s = 5"
  with calibrate_threshold_cases [of s opened now arrived] Calibrate show ?thesis by auto
qed (simp_all add: connect_def disconnect_def stop_stream_def start_stream_threshold
      stream_data_threshold)

lemma run_threshold: "detection_threshold s = 5 \<Longrightarrow> detection_threshold (run s ops) = 5"
  unfolding run_def by (induction ops arbitrary: s) (simp_all add: perform_threshold)

lemma calibration_data_idle: "calibration_data s a a = []"
  by (simp add: calibration_data_def)

text \<open>
  Claim C7. When calibration succeeds, the reported baseline mean and standard
  deviation are the mean and the population standard deviation of the filtered values
  of the samples stored during the run (of the \<open>BUFFER_SIZE\<close> most recent ones when the
  run stored more than the buffer holds); the threshold becomes the constant 5, whatever
  those statistics are; and after any further engine operations the threshold is still 5
  and is the number the detector compares the maximum z-score with.
\<close>

theorem calibration_success:
  assumes "buffers_ok s" and "calibrate s opened now arrived = (s', Some r)"
  shows "baseline_mean r =
           np_mean (map (\<lambda>x. fst (snd x))
             (drop (length (ingested (calibration_start s opened now) arrived) - BUFFER_SIZE)
                (ingested (calibration_start s opened now) arrived))) \<and>
         baseline_std r =
           np_std (map (\<lambda>x. fst (snd x))
             (drop (length (ingested (calibration_start s opened now) arrived) - BUFFER_SIZE)
                (ingested (calibration_start s opened now) arrived))) \<and>
         detection_threshold s' = 5 \<and>
         detection_threshold (run s' ops) = 5 \<and>
         detect_neural_event (run s' ops) i t =
           (if 0 < np_std (window_data (run s' ops) i) \<and>
               5 < max_z (window_data (run s' ops) i) \<and>
               cooldown_period (run s' ops) < t - last_event_time (run s' ops)
            then record_event (run s' ops) t else run s' ops)"
proof -
  let ?s1 = "calibration_start s opened now"
  let ?s2 = "stream_data ?s1 arrived"
  let ?data = "calibration_data ?s2 (current_sample_idx ?s1) (current_sample_idx ?s2)"
  let ?recent = "map (\<lambda>x. fst (snd x))
     (drop (length (ingested ?s1 arrived) - BUFFER_SIZE) (ingested ?s1 arrived))"
  from assms(2) have enough: "SAMPLE_RATE < length ?data"
    and r: "r = \<lparr>baseline_mean = np_mean ?data, baseline_std = np_std ?data\<rparr>"
    and s': "s' = (if \<not> streaming s then stop_stream (?s2\<lparr>detection_threshold := 5\<rparr>)
                   else ?s2\<lparr>detection_threshold := 5\<rparr>)"
    by (auto simp add: calibrate_unfold Let_def split: if_splits)
  have st: "streaming ?s1"
  proof (rule ccontr)
    assume "\<not> streaming ?s1"
    then have "?s2 = ?s1" by (rule stream_data_stopped)
    then have "?data = []" by (simp add: calibration_data_idle)
    with enough show False by simp
  qed
  have ok: "buffers_ok ?s1" using assms(1) by (simp add: calibration_start_facts)
  have m: "mset ?data = mset ?recent" using ok st by (rule calibration_data_recent)
  have A: "baseline_mean r = np_mean ?recent" using np_mean_mset [OF m] by (simp add: r)
  have B: "baseline_std r = np_std ?recent" using np_std_mset [OF m] by (simp add: r)
  have C: "detection_threshold s' = 5" by (simp add: s' stop_stream_def)
  then have D: "detection_threshold (run s' ops) = 5" by (rule run_threshold)
  have E: "detect_neural_event (run s' ops) i t =
           (if 0 < np_std (window_data (run s' ops) i) \<and>
               5 < max_z (window_data (run s' ops) i) \<and>
               cooldown_period (run s' ops) < t - last_event_time (run s' ops)
            then record_event (run s' ops) t else run s' ops)"
    by (simp add: detect_fires fires_def D)
  from A B C D E show ?thesis by blast
qed

lemma demo_calibration_some: "snd demo_calibration \<noteq> None"
proof -
  let ?ticks = "replicate 251 (Parsed 0, 2, 2) :: tick list"
  have len: "length (filter parsed ?ticks) = 251" by simp
  have c: "streaming demo \<or> running demo \<or> True" by simp
  have le: "length (filter parsed ?ticks) \<le> BUFFER_SIZE"
    unfolding len by (simp add: BUFFER_SIZE_def)
  have "(snd (calibrate demo True 1 ?ticks) = None) = (251 \<le> SAMPLE_RATE)"
    using calibrate_threshold(2) [OF c le, of 1] unfolding len .
  then show ?thesis by (simp add: demo_calibration_def SAMPLE_RATE_def)
qed

theorem calibration_success_witness:
  "buffers_ok demo \<and>
   calibrate demo True 1 (replicate 251 (Parsed 0, 2, 2)) =
     (fst demo_calibration, Some (the (snd demo_calibration))) \<and>
   detection_threshold demo = 50 \<and>
   detection_threshold (fst demo_calibration) = 5 \<and>
   detection_threshold
     (run (fst demo_calibration) [Start True 9, Lines demo_ticks, Stop, Disconnect]) = 5"
proof -
  have h: "calibrate demo True 1 (replicate 251 (Parsed 0, 2, 2)) =
             (fst demo_calibration, Some (the (snd demo_calibration)))"
    using demo_calibration_some by (simp add: demo_calibration_def prod_eq_iff)
  have t: "detection_threshold demo = 50" by (simp add: demo_def init_def)
  show ?thesis
    using calibration_success [OF demo_ok h,
            of "[Start True 9, Lines demo_ticks, Stop, Disconnect]" 0 0] demo_ok h t
    by simp
qed

subsection \<open>Malformed lines\<close>

text \<open>
  Claim C8. A line that fails to decode or to parse changes nothing: the object after
  the loop pass is the object before it (no buffer write, no filter state, no counter
  increment, no detector run). The loop goes on: a stream with a malformed line anywhere
  in it ends in the same object, and stores the same samples, as the stream without
  that line.
\<close>

theorem malformed_line_dropped:
  "process_line s (UnicodeDecodeError, t, t') = s \<and>
   process_line s (ValueError, t, t') = s \<and>
   stream_data s (before @ (UnicodeDecodeError, t, t') # after) = stream_data s (before @ after) \<and>
   stream_data s (before @ (ValueError, t, t') # after) = stream_data s (before @ after) \<and>
   ingested s (before @ (UnicodeDecodeError, t, t') # after) = ingested s (before @ after) \<and>
   ingested s (before @ (ValueError, t, t') # after) = ingested s (before @ after)"
proof -
  let ?m = "stream_data s before"
  have sd: "stream_data ?m (x # after) = stream_data ?m after"
    if "process_line ?m x = ?m" for x
    using that by (cases "streaming ?m") (simp_all add: stream_data_stopped)
  have ing: "ingested ?m (x # after) = ingested ?m after"
    if "process_line ?m x = ?m" "new_sample ?m x = []" for x
    using that by (cases "streaming ?m") (simp_all add: ingested_stopped)
  have "stream_data ?m ((UnicodeDecodeError, t, t') # after) = stream_data ?m after"
       "stream_data ?m ((ValueError, t, t') # after) = stream_data ?m after"
       "ingested ?m ((UnicodeDecodeError, t, t') # after) = ingested ?m after"
       "ingested ?m ((ValueError, t, t') # after) = ingested ?m after"
    by (simp_all add: sd ing del: stream_data.simps ingested.simps)
  then show ?thesis
    by (simp only: stream_data_append ingested_append process_line.simps simp_thms)
qed

subsection \<open>Stop followed by start\<close>

text \<open>
  Claim C9 says that stop followed by start resets the event counter and the log in
  every engine state. An engine that logged three events and was disconnected keeps
  them when the port cannot be opened again: \<open>start_stream\<close> returns \<open>False\<close> before
  the reset.
\<close>

theorem stop_start_counterexample:
  "event_count demo_disconnected = 3 \<and>
   event_count (snd (start_stream (stop_stream demo_disconnected) False 9)) = 3 \<and>
   event_timestamps (snd (start_stream (stop_stream demo_disconnected) False 9)) = [2, 3, 4]"
  by (simp add: demo_disconnected_def disconnect_def stop_stream_def start_stream_def connect_def
        demo_started_def demo_def init_def)

text \<open>
  Claim C9, amended. \<open>stop_stream\<close> changes nothing but the \<open>streaming\<close> flag, so a
  read between stop and start sees the event count, the event log, the buffers and
  the sample counter as they were; a following \<open>start_stream\<close> that succeeds (the
  port is open already, or opens) resets the event count to 0 and empties the log; one
  that fails leaves the stopped engine as it is.
\<close>

theorem stop_then_start:
  "(stop_stream s)\<lparr>streaming := streaming s\<rparr> = s \<and>
   event_count (stop_stream s) = event_count s \<and>
   event_timestamps (stop_stream s) = event_timestamps s \<and>
   raw_buffer (stop_stream s) = raw_buffer s \<and>
   filtered_buffer (stop_stream s) = filtered_buffer s \<and>
   timestamps (stop_stream s) = timestamps s \<and>
   current_sample_idx (stop_stream s) = current_sample_idx s \<and>
   (running s \<or> opened \<longrightarrow>
      fst (start_stream (stop_stream s) opened now) \<and>
      event_count (snd (start_stream (stop_stream s) opened now)) = 0 \<and>
      event_timestamps (snd (start_stream (stop_stream s) opened now)) = []) \<and>
   (\<not> running s \<and> \<not> opened \<longrightarrow>
      start_stream (stop_stream s) opened now = (False, stop_stream s))"
  by (simp add: stop_stream_def start_stream_def connect_def)

theorem stop_then_start_witness:
  "(running demo_disconnected \<or> True) \<and> \<not> running demo_disconnected \<and>
   event_count (stop_stream demo_disconnected) = 3 \<and>
   event_timestamps (stop_stream demo_disconnected) = [2, 3, 4] \<and>
   event_count (snd (start_stream (stop_stream demo_disconnected) True 9)) = 0 \<and>
   event_timestamps (snd (start_stream (stop_stream demo_disconnected) True 9)) = [] \<and>
   start_stream (stop_stream demo_disconnected) False 9 = (False, stop_stream demo_disconnected)"
proof -
  have r: "\<not> running demo_disconnected"
    by (simp add: demo_disconnected_def disconnect_def stop_stream_def)
  have e: "event_count demo_disconnected = 3" "event_timestamps demo_disconnected = [2, 3, 4]"
    by (simp_all add: demo_disconnected_def disconnect_def stop_stream_def demo_started_def
          start_stream_def connect_def demo_def init_def)
  show ?thesis
    using stop_then_start [of demo_disconnected True 9]
          stop_then_start [of demo_disconnected False 9] r e
    by simp
qed

subsection \<open>Sign decoding of the raw value\<close>

text \<open>
  Claim C10. For every parsed integer \<open>v\<close>, the value written to the raw buffer (at the
  slot of the current sample) is \<open>v - 0x1000000\<close> if \<open>v > 0x800000\<close> and \<open>v\<close> otherwise, and
  the filter stages are fed that decoded value. The comparison is strict, so \<open>0x800000\<close>
  itself is stored unchanged.
\<close>

theorem raw_value_decoding:
  assumes "buffers_ok s"
  shows "raw_buffer (process_line s (Parsed v, t, t')) ! (current_sample_idx s mod BUFFER_SIZE) =
           (if v > 0x800000 then of_int v - 0x1000000 else of_int v) \<and>
         filtered_buffer (process_line s (Parsed v, t, t')) ! (current_sample_idx s mod BUFFER_SIZE) =
           fst (notch s (fst (bandpass s (if v > 0x800000 then of_int v - 0x1000000 else of_int v))))"
proof -
  have "current_sample_idx s mod BUFFER_SIZE < BUFFER_SIZE"
    by (simp add: BUFFER_SIZE_pos)
  with assms show ?thesis
    by (simp add: process_sample_buffers buffers_ok_def decode_sample_def filtered_value_def)
qed

theorem raw_value_decoding_witness:
  "buffers_ok demo_started \<and>
   raw_buffer (process_line demo_started (Parsed 0x800001, 2, 2)) ! 0 = - 8388607 \<and>
   raw_buffer (process_line demo_started (Parsed 0x800000, 2, 2)) ! 0 = 8388608 \<and>
   raw_buffer (process_line demo_started (Parsed 5, 2, 2)) ! 0 = 5"
  using raw_value_decoding [OF demo_started_ok, of "0x800001" 2 2]
        raw_value_decoding [OF demo_started_ok, of "0x800000" 2 2]
        raw_value_decoding [OF demo_started_ok, of 5 2 2] demo_started_ok
  by (simp add: demo_started_idx)

end
